theory Spec2Isabelle
  imports Main "HOL-Library.Sublist" "HOL-Library.AList"
begin

section \<open>Strings and arrays as JavaScript has them\<close>

text \<open>
  Instants (\<open>new Date()\<close>, \<open>moment()\<close>, ISO timestamps) are milliseconds since the epoch.
  Strings are lists of code units below 256 (the Latin-1 range of JavaScript's code
  units); \<open>toLowerCase\<close> and the white-space class \<open>\s\<close> are modelled on that range.
\<close>

type_synonym instant = int

text \<open>The upper-case letters of the range are A to Z and, but for the multiplication sign
  at 215, the code units 192 to 222; each has its lower-case letter 32 places on.\<close>

definition isUpper :: "nat \<Rightarrow> bool" where
  "isUpper n = ((65 \<le> n \<and> n \<le> 90) \<or> (192 \<le> n \<and> n \<le> 222 \<and> n \<noteq> 215))"

definition toLowerChar :: "char \<Rightarrow> char" where
  "toLowerChar c = (if isUpper (of_char c) then char_of (of_char c + (32::nat)) else c)"

definition toLowerCase :: "string \<Rightarrow> string" where
  "toLowerCase s = map toLowerChar s"

text \<open>\<open>s.includes(t)\<close>: \<open>t\<close> occurs in \<open>s\<close> as a contiguous substring.\<close>

fun js_includes :: "string \<Rightarrow> string \<Rightarrow> bool" where
  "js_includes [] t = (t = [])"
| "js_includes (c # cs) t = (prefix t (c # cs) \<or> js_includes cs t)"

text \<open>
  A JavaScript array may have holes: a slot is \<open>None\<close> when it was never assigned.
  Reading out of range gives \<open>undefined\<close> (\<open>None\<close>); assigning beyond the end extends the
  array, leaving holes in between.
\<close>

definition js_get :: "'a list \<Rightarrow> nat \<Rightarrow> 'a option" where
  "js_get xs i = (if i < length xs then Some (xs ! i) else None)"

definition js_read :: "'a option list \<Rightarrow> nat \<Rightarrow> 'a option" where
  "js_read xs i = (if i < length xs then xs ! i else None)"

definition js_set :: "'a option list \<Rightarrow> nat \<Rightarrow> 'a \<Rightarrow> 'a option list" where
  "js_set xs i v =
     (if i < length xs then xs[i := Some v]
      else xs @ replicate (i - length xs) None @ [Some v])"

text \<open>\<open>xs.indexOf(x)\<close>: the first position of \<open>x\<close>, or \<open>None\<close> for JavaScript's -1.\<close>

fun indexOf :: "'a list \<Rightarrow> 'a \<Rightarrow> nat option" where
  "indexOf [] x = None"
| "indexOf (y # ys) x = (if y = x then Some 0 else map_option Suc (indexOf ys x))"

text \<open>\<open>name.replace(/\s+/g, '_')\<close>: every maximal run of white space becomes one underscore.\<close>

definition isSpace :: "char \<Rightarrow> bool" where
  "isSpace c = (c \<in> set [CHR '' '', CHR 0x09, CHR 0x0A, CHR 0x0B, CHR 0x0C, CHR 0x0D, CHR 0xA0])"

fun replaceSpacesFrom :: "bool \<Rightarrow> string \<Rightarrow> string" where
  "replaceSpacesFrom inRun [] = []"
| "replaceSpacesFrom inRun (c # cs) =
     (if isSpace c then
        (if inRun then replaceSpacesFrom True cs else CHR ''_'' # replaceSpacesFrom True cs)
      else c # replaceSpacesFrom False cs)"

definition replaceSpaces :: "string \<Rightarrow> string" where
  "replaceSpaces s = replaceSpacesFrom False s"

text \<open>A number inside a template string: its decimal digits.\<close>

definition digitChar :: "nat \<Rightarrow> char" where
  "digitChar d = ''0123456789'' ! d"

fun numberToString :: "nat \<Rightarrow> string" where
  "numberToString n =
     (if 10 \<le> n then numberToString (n div 10) @ [digitChar (n mod 10)] else [digitChar n])"

section \<open>The conversation service (aiService.js)\<close>

subsection \<open>Data\<close>

text \<open>One collected answer: the question text (\<open>undefined\<close> when the index is past the
  three questions), the raw answer and the collection time.\<close>

record entry =
  question :: "string option"
  answer :: string
  timestamp :: instant

text \<open>The \<open>sessionId\<close> string \<open>standup_<Date.now()>_<name>\<close>, kept in its two parts.\<close>

datatype standup_id = StandupId instant string

text \<open>
  A sub-session as \<open>conductStandupSession\<close> builds it. The fields \<open>lastAIResponse\<close> and
  \<open>isComplete\<close> are absent until the first answer is processed; an absent \<open>isComplete\<close> is
  falsy wherever the source reads it, so it is \<open>False\<close> here.
\<close>

record standup =
  ss_questions :: "string list"
  ss_currentQuestionIndex :: nat
  ss_responses :: "entry option list"
  ss_participantName :: string
  ss_sessionId :: standup_id
  ss_lastAIResponse :: "string option"
  ss_isComplete :: bool

datatype role = ScrumMaster | Summarizer | BlockerAnalyzer

text \<open>
  The prompts handed to \<open>generateResponse\<close>, by the data their text is built from:
  the three acknowledgment prompts carry the answer, the summary prompt the roster, the
  meeting date and each participant's answers, the analysis prompt the blockers text.
\<close>

datatype prompt =
  AccomplishedPrompt string
| PlansPrompt string
| BlockersPrompt string
| SummaryPrompt "string list" instant "(string \<times> entry list) list"
| AnalysisPrompt string

text \<open>What the service does to the outside world, in program order.\<close>

datatype event =
  GenerateResponse prompt role
| SummarizeMeeting string
| AnalyzeBlockers
| SendMeetingSummary "string list" string
| SendBlockerAlert "string list" string
| SendMeetingNotification "string list" string string
| UpdateTasksFromMeeting string
| ConsoleError string string

text \<open>
  The world during one operation: the clock, the language model behind \<open>generateResponse\<close>
  (which catches every error of its own and always returns a text), whether each mail
  call of this operation fails, the identifier \<open>uuidv4()\<close> returns, the time zones the
  cron library accepts and the \<open>TEAM_LEAD_EMAIL\<close> variable. The task synchronisation
  catches every error on the data it is given and has no entry here.
\<close>

record env =
  now :: instant
  generate :: "prompt \<Rightarrow> role \<Rightarrow> string"
  uuid :: string
  summaryMailFails :: bool
  alertMailFails :: bool
  notifyMailFails :: bool
  timeZoneKnown :: "string \<Rightarrow> bool"
  teamLeadEmail :: "string option"

subsection \<open>Operations\<close>

definition generateResponse :: "env \<Rightarrow> prompt \<Rightarrow> role \<Rightarrow> string \<times> event list" where
  "generateResponse e p r = (generate e p r, [GenerateResponse p r])"

definition conductStandupSession :: "env \<Rightarrow> string \<Rightarrow> standup" where
  "conductStandupSession e participantName =
     \<lparr> ss_questions =
         [''Hello '' @ participantName @
            ''! Let's start with our daily standup. What did you accomplish yesterday?'',
          ''Great! Now, what are you planning to work on today?'',
          ''Perfect! Do you have any blockers or impediments that are preventing you from moving forward?''],
       ss_currentQuestionIndex = 0,
       ss_responses = [],
       ss_participantName = participantName,
       ss_sessionId = StandupId (now e) (replaceSpaces participantName),
       ss_lastAIResponse = None,
       ss_isComplete = False \<rparr>"

definition noBlockersAck :: string where
  "noBlockersAck = ''Excellent! No blockers is great to hear. Thanks for the update!''"

definition saysNoBlockers :: "string \<Rightarrow> bool" where
  "saysNoBlockers response =
     (js_includes (toLowerCase response) ''no'' \<or> js_includes (toLowerCase response) ''none'')"

text \<open>The acknowledgment for the answer to question \<open>questionIndex\<close>, with the calls made.\<close>

definition acknowledge :: "env \<Rightarrow> string \<Rightarrow> nat \<Rightarrow> string \<times> event list" where
  "acknowledge e response questionIndex =
     (if questionIndex = 0 then generateResponse e (AccomplishedPrompt response) ScrumMaster
      else if questionIndex = 1 then generateResponse e (PlansPrompt response) ScrumMaster
      else if questionIndex = 2 then
        (if saysNoBlockers response then (noBlockersAck, [])
         else generateResponse e (BlockersPrompt response) ScrumMaster)
      else ([], []))"

text \<open>
  \<open>processStandupResponse\<close> stores the answer in place at \<open>questionIndex\<close>, asks for the
  acknowledgment and returns the copy with the advanced index. With a string answer
  nothing in its body throws.
\<close>

definition processStandupResponse ::
  "env \<Rightarrow> standup \<Rightarrow> string \<Rightarrow> nat \<Rightarrow> standup \<times> event list" where
  "processStandupResponse e sessionData response questionIndex =
     (let stored = js_set (ss_responses sessionData) questionIndex
                     \<lparr> question = js_get (ss_questions sessionData) questionIndex,
                       answer = response,
                       timestamp = now e \<rparr>;
          ack = acknowledge e response questionIndex
      in (sessionData \<lparr> ss_responses := stored,
                        ss_currentQuestionIndex := questionIndex + 1,
                        ss_lastAIResponse := Some (fst ack),
                        ss_isComplete := (2 \<le> questionIndex) \<rparr>,
          snd ack))"


subsection \<open>Summary and blocker analysis\<close>

record blocker =
  b_participant :: string
  b_blocker :: string
  b_timestamp :: instant

text \<open>The record \<open>endMeeting\<close> assembles; \<open>md_responses\<close> is the positional response table.\<close>

record meeting_data =
  md_id :: string
  md_title :: string
  md_participants :: "string list"
  md_responses :: "entry option list option list"
  md_date :: instant
  md_duration :: int

text \<open>\<open>sm_duration\<close> is \<open>None\<close> for the text 'Not recorded' (a duration of 0 is falsy).\<close>

record summary =
  sm_summary :: string
  sm_meetingDate :: instant
  sm_participants :: "string list"
  sm_duration :: "int option"
  sm_blockers :: "blocker list"

text \<open>
  The analysis result. Without blockers the source returns a fixed record that has no
  \<open>blockers\<close> and no \<open>timestamp\<close> field (and two empty lists, \<open>categories\<close> and
  \<open>recommendations\<close>, which nothing reads).
\<close>

record analysis =
  an_analysis :: string
  an_requiresEscalation :: bool
  an_blockers :: "blocker list option"
  an_timestamp :: "instant option"

fun js_join :: "string \<Rightarrow> string list \<Rightarrow> string" where
  "js_join sep [] = []"
| "js_join sep [x] = x"
| "js_join sep (x # y # ys) = x @ sep @ js_join sep (y # ys)"

definition participantLabel :: "nat \<Rightarrow> string" where
  "participantLabel index = ''Participant '' @ numberToString (index + 1)"

definition extractBlockers :: "entry option list option list \<Rightarrow> blocker list" where
  "extractBlockers responses =
     concat (map (\<lambda>(index, participantResponses).
        (case participantResponses of
           None \<Rightarrow> []
         | Some rs \<Rightarrow>
             if 2 < length rs then
               (case rs ! 2 of
                  None \<Rightarrow> []
                | Some blockerResponse \<Rightarrow>
                    if \<not> js_includes (toLowerCase (answer blockerResponse)) ''no'' \<and>
                       \<not> js_includes (toLowerCase (answer blockerResponse)) ''none''
                    then [\<lparr> b_participant = participantLabel index,
                            b_blocker = answer blockerResponse,
                            b_timestamp = timestamp blockerResponse \<rparr>]
                    else [])
             else []))
       (enumerate 0 responses))"

definition summaryRows ::
  "string list \<Rightarrow> entry option list option list \<Rightarrow> (string \<times> entry list) list" where
  "summaryRows participants responses =
     concat (map (\<lambda>(index, participantResponses).
        (case participantResponses of
           None \<Rightarrow> []
         | Some rs \<Rightarrow>
             if 0 < length rs then
               [(case js_get participants index of
                   None \<Rightarrow> participantLabel index
                 | Some name \<Rightarrow> if name = [] then participantLabel index else name,
                 concat (map (\<lambda>r. case r of None \<Rightarrow> [] | Some x \<Rightarrow> [x]) rs))]
             else []))
       (enumerate 0 responses))"

definition summarizeMeeting :: "env \<Rightarrow> meeting_data \<Rightarrow> summary \<times> event list" where
  "summarizeMeeting e meetingData =
     (let participants = md_participants meetingData;
          responses = md_responses meetingData;
          summaryPrompt = SummaryPrompt participants (md_date meetingData)
                            (summaryRows participants responses);
          generated = generateResponse e summaryPrompt Summarizer
      in (\<lparr> sm_summary = fst generated,
            sm_meetingDate = md_date meetingData,
            sm_participants = participants,
            sm_duration = (if md_duration meetingData = 0 then None
                           else Some (md_duration meetingData)),
            sm_blockers = extractBlockers responses \<rparr>,
          snd generated))"

definition urgentKeywords :: "string list" where
  "urgentKeywords = [''urgent'', ''critical'', ''blocked completely'', ''cannot proceed'', ''escalate'']"

definition analyzeBlockers :: "env \<Rightarrow> blocker list \<Rightarrow> analysis \<times> event list" where
  "analyzeBlockers e blockers =
     (if blockers = [] then
        (\<lparr> an_analysis = ''No blockers were identified in this standup meeting.'',
           an_requiresEscalation = False,
           an_blockers = None,
           an_timestamp = None \<rparr>, [])
      else
        (let blockersText = js_join [CHR 0x0A]
                              (map (\<lambda>b. b_participant b @ '': '' @ b_blocker b) blockers);
             generated = generateResponse e (AnalysisPrompt blockersText) BlockerAnalyzer;
             requiresEscalation =
               list_ex (\<lambda>keyword. js_includes (toLowerCase (fst generated)) keyword \<or>
                                    js_includes (toLowerCase blockersText) keyword)
                 urgentKeywords
         in (\<lparr> an_analysis = fst generated,
               an_requiresEscalation = requiresEscalation,
               an_blockers = Some blockers,
               an_timestamp = Some (now e) \<rparr>,
             snd generated)))"

section \<open>The meeting service\<close>

subsection \<open>Data\<close>

datatype status = Scheduled | InProgress | Completed | Cancelled

text \<open>
  The argument of \<open>scheduleMeeting\<close>. A field the caller may leave out is an option;
  \<open>sp_scheduledTime\<close> is the instant that \<open>moment.tz(scheduledTime, timezone)\<close> denotes.
\<close>

record meeting_spec =
  sp_title :: "string option"
  sp_participants :: "string list option"
  sp_scheduledTime :: instant
  sp_duration :: "int option"
  sp_isVirtualScrumMaster :: "bool option"
  sp_timezone :: "string option"
  sp_recurrence :: "string option"
  sp_createdBy :: "string option"

record meeting =
  m_id :: string
  m_title :: string
  m_participants :: "string list"
  m_scheduledTime :: instant
  m_duration :: int
  m_isVirtualScrumMaster :: bool
  m_timezone :: string
  m_recurrence :: string
  m_status :: status
  m_createdAt :: instant
  m_createdBy :: "string option"
  m_startedAt :: "instant option"
  m_endedAt :: "instant option"

text \<open>
  A live session. \<open>s_activeStandupSessions\<close> is the JavaScript \<open>Map\<close> from participant
  name to sub-session, as an association list in insertion order.
\<close>

record session =
  s_meetingId :: string
  s_participants :: "string list"
  s_responses :: "entry option list option list"
  s_currentParticipantIndex :: nat
  s_activeStandupSessions :: "(string \<times> standup) list"
  s_startTime :: instant
  s_isVirtualScrumMaster :: bool

text \<open>A recurring job of the cron library: its weekday schedule is derived from the
  scheduled instant in the time zone.\<close>

datatype job = CronJob instant string

text \<open>
  The service object: its three maps, the callbacks handed to \<open>setTimeout\<close> and still
  pending (meeting identifier and due instant; the source keeps no handle on them), and
  the trace of outside effects so far.
\<close>

record service =
  meetings :: "(string \<times> meeting) list"
  activeSessions :: "(string \<times> session) list"
  scheduledJobs :: "(string \<times> job) list"
  timers :: "(string \<times> instant) list"
  trace :: "event list"

definition initial :: service where
  "initial = \<lparr> meetings = [], activeSessions = [], scheduledJobs = [], timers = [], trace = [] \<rparr>"

text \<open>A thrown \<open>Error\<close>, by its message.\<close>

datatype error = Error string

definition emit :: "event list \<Rightarrow> service \<Rightarrow> service" where
  "emit evs s = s \<lparr> trace := trace s @ evs \<rparr>"

text \<open>The JavaScript \<open>x || d\<close> on an optional string, number or flag.\<close>

definition orString :: "string option \<Rightarrow> string \<Rightarrow> string" where
  "orString x d = (case x of None \<Rightarrow> d | Some v \<Rightarrow> if v = [] then d else v)"

definition orInt :: "int option \<Rightarrow> int \<Rightarrow> int" where
  "orInt x d = (case x of None \<Rightarrow> d | Some v \<Rightarrow> if v = 0 then d else v)"


record join_result =
  j_sessionId :: "standup_id option"
  j_welcomeMessage :: string
  j_firstQuestion :: "string option"
  j_title :: string
  j_startTime :: instant
  j_participants :: "string list"

record response_data =
  rd_acknowledgment :: "string option"
  rd_isComplete :: bool
  rd_nextQuestion :: "string option"
  rd_completionMessage :: "string option"

record end_result =
  er_summary :: summary
  er_blockerAnalysis :: analysis
  er_meetingData :: meeting_data

subsection \<open>Scheduling\<close>

text \<open>\<open>cron.schedule\<close> throws on a time zone it does not know, before any job exists.\<close>

definition scheduleRecurringMeeting ::
  "env \<Rightarrow> meeting \<Rightarrow> service \<Rightarrow> (error + unit) \<times> service" where
  "scheduleRecurringMeeting e meeting s =
     (if \<not> timeZoneKnown e (m_timezone meeting) then
        (Inl (Error ''Invalid time zone''), s)
      else
        (Inr (),
         s \<lparr> scheduledJobs :=
               AList.update (m_id meeting)
                 (CronJob (m_scheduledTime meeting) (m_timezone meeting)) (scheduledJobs s) \<rparr>))"

text \<open>
  The delay \<open>setTimeout\<close> really waits: a delay below 1 ms or above 2147483647 ms (about
  24.8 days) is replaced by 1 ms.
\<close>

definition timeoutDelay :: "int \<Rightarrow> int" where
  "timeoutDelay delay = (if delay < 1 \<or> 2147483647 < delay then 1 else delay)"

text \<open>\<open>setTimeout\<close> with \<open>delay = scheduledTime - now\<close>, unchecked: the callback is due
  after the delay that \<open>setTimeout\<close> makes of it. The handle that \<open>setTimeout\<close>
  returns is dropped.\<close>

definition scheduleOneTimeMeeting ::
  "env \<Rightarrow> meeting \<Rightarrow> service \<Rightarrow> (error + unit) \<times> service" where
  "scheduleOneTimeMeeting e meeting s =
     (if m_scheduledTime meeting < now e then
        (Inl (Error ''Cannot schedule meeting in the past''), s)
      else
        (let delay = m_scheduledTime meeting - now e
         in (Inr (),
             s \<lparr> timers := timers s @ [(m_id meeting, now e + timeoutDelay delay)] \<rparr>)))"

definition newMeeting :: "env \<Rightarrow> meeting_spec \<Rightarrow> meeting" where
  "newMeeting e meetingData =
     \<lparr> m_id = uuid e,
       m_title = orString (sp_title meetingData) ''Daily Standup'',
       m_participants = (case sp_participants meetingData of None \<Rightarrow> [] | Some ps \<Rightarrow> ps),
       m_scheduledTime = sp_scheduledTime meetingData,
       m_duration = orInt (sp_duration meetingData) 30,
       m_isVirtualScrumMaster =
         (case sp_isVirtualScrumMaster meetingData of None \<Rightarrow> False | Some b \<Rightarrow> b),
       m_timezone = orString (sp_timezone meetingData) ''UTC'',
       m_recurrence = orString (sp_recurrence meetingData) ''none'',
       m_status = Scheduled,
       m_createdAt = now e,
       m_createdBy = sp_createdBy meetingData,
       m_startedAt = None,
       m_endedAt = None \<rparr>"

definition scheduleMeeting ::
  "env \<Rightarrow> meeting_spec \<Rightarrow> service \<Rightarrow> (error + meeting) \<times> service" where
  "scheduleMeeting e meetingData s =
     (let meeting = newMeeting e meetingData;
          s1 = s \<lparr> meetings := AList.update (m_id meeting) meeting (meetings s) \<rparr>
      in case (if sp_recurrence meetingData = Some ''daily''
               then scheduleRecurringMeeting e meeting s1
               else scheduleOneTimeMeeting e meeting s1) of
           (Inl (Error msg), s2) \<Rightarrow>
             (Inl (Error ''Failed to schedule meeting''),
              emit [ConsoleError ''Error scheduling meeting:'' msg] s2)
         | (Inr u, s2) \<Rightarrow> (Inr meeting, s2))"

subsection \<open>Notifications\<close>

text \<open>Both helpers catch and log a failing mail call; neither ever throws.\<close>

definition notifyParticipants :: "env \<Rightarrow> meeting \<Rightarrow> string \<Rightarrow> string \<Rightarrow> service \<Rightarrow> service" where
  "notifyParticipants e meeting subject message s =
     emit ([SendMeetingNotification (m_participants meeting)
              (subject @ '' - '' @ m_title meeting) message] @
           (if notifyMailFails e then
              [ConsoleError ''Error notifying participants:'' ''Failed to send meeting notification'']
            else [])) s"

definition alertTeamLead :: "env \<Rightarrow> string \<Rightarrow> analysis \<Rightarrow> service \<Rightarrow> service" where
  "alertTeamLead e meetingId blockerAnalysis s =
     (case map_of (meetings s) meetingId of
        None \<Rightarrow> emit [ConsoleError ''Error alerting team lead:'' ''TypeError''] s
      | Some meeting \<Rightarrow>
          emit ([SendBlockerAlert [orString (teamLeadEmail e) ''teamlead@company.com''] meetingId] @
                (if alertMailFails e then
                   [ConsoleError ''Error alerting team lead:'' ''Failed to send blocker alert'']
                 else [])) s)"

subsection \<open>Starting and joining\<close>

definition startMeeting :: "env \<Rightarrow> string \<Rightarrow> service \<Rightarrow> (error + session) \<times> service" where
  "startMeeting e meetingId s =
     (case map_of (meetings s) meetingId of
        None \<Rightarrow>
          (Inl (Error ''Failed to start meeting''),
           emit [ConsoleError ''Error starting meeting:'' ''Meeting not found''] s)
      | Some meeting0 \<Rightarrow>
          (let meeting = meeting0 \<lparr> m_status := InProgress, m_startedAt := Some (now e) \<rparr>;
               session = \<lparr> s_meetingId = meetingId,
                           s_participants = m_participants meeting,
                           s_responses = [],
                           s_currentParticipantIndex = 0,
                           s_activeStandupSessions = [],
                           s_startTime = now e,
                           s_isVirtualScrumMaster = m_isVirtualScrumMaster meeting \<rparr>;
               s1 = s \<lparr> meetings := AList.update meetingId meeting (meetings s),
                        activeSessions := AList.update meetingId session (activeSessions s) \<rparr>
           in (Inr session,
               notifyParticipants e meeting ''Meeting Started''
                 (''Your daily standup meeting '' @ [CHR 0x22] @ m_title meeting @ [CHR 0x22] @
                  '' has started. Please join the meeting.'') s1)))"

definition failJoin :: "string \<Rightarrow> service \<Rightarrow> (error + join_result) \<times> service" where
  "failJoin msg s =
     (Inl (Error ''Failed to join meeting''), emit [ConsoleError ''Error joining meeting:'' msg] s)"

definition joinMeeting ::
  "env \<Rightarrow> string \<Rightarrow> string \<Rightarrow> service \<Rightarrow> (error + join_result) \<times> service" where
  "joinMeeting e meetingId participantName s =
     (case map_of (activeSessions s) meetingId of
        None \<Rightarrow> failJoin ''Meeting session not found or meeting has not started'' s
      | Some session \<Rightarrow>
          (case map_of (meetings s) meetingId of
             None \<Rightarrow> failJoin ''TypeError'' s
           | Some meeting \<Rightarrow>
               if participantName \<notin> set (m_participants meeting) then
                 failJoin ''Participant not invited to this meeting'' s
               else if s_isVirtualScrumMaster session then
                 (let standupSession = conductStandupSession e participantName;
                      session1 = session \<lparr> s_activeStandupSessions :=
                                   AList.update participantName standupSession
                                     (s_activeStandupSessions session) \<rparr>
                  in (Inr \<lparr> j_sessionId = Some (ss_sessionId standupSession),
                            j_welcomeMessage = ''Welcome to the daily standup, '' @ participantName @
                                               ''! I'm your virtual Scrum Master today.'',
                            j_firstQuestion = js_get (ss_questions standupSession) 0,
                            j_title = m_title meeting,
                            j_startTime = s_startTime session,
                            j_participants = s_participants session \<rparr>,
                      s \<lparr> activeSessions :=
                            AList.update meetingId session1 (activeSessions s) \<rparr>))
               else
                 (Inr \<lparr> j_sessionId = None,
                        j_welcomeMessage = ''Welcome to the daily standup, '' @ participantName @ ''!'',
                        j_firstQuestion = None,
                        j_title = m_title meeting,
                        j_startTime = s_startTime session,
                        j_participants = s_participants session \<rparr>, s)))"


subsection \<open>Finalizing\<close>

text \<open>\<open>Math.round\<close> of the elapsed milliseconds over 60000: halves round up.\<close>

definition roundMinutes :: "int \<Rightarrow> int" where
  "roundMinutes ms = (ms + 30000) div 60000"

definition failEnd :: "string \<Rightarrow> service \<Rightarrow> (error + end_result) \<times> service" where
  "failEnd msg s =
     (Inl (Error ''Failed to end meeting''), emit [ConsoleError ''Error ending meeting:'' msg] s)"

text \<open>
  The whole body of \<open>endMeeting\<close> is one \<open>try\<close> block: a throw of the summary mail
  leaves through the single \<open>catch\<close>, past the statements after it.
  \<open>summarizeMeeting\<close> and \<open>analyzeBlockers\<close> do not throw on this data, and
  \<open>alertTeamLead\<close> and the task synchronisation catch their own errors.
\<close>

definition endMeeting :: "env \<Rightarrow> string \<Rightarrow> service \<Rightarrow> (error + end_result) \<times> service" where
  "endMeeting e meetingId s =
     (case (map_of (activeSessions s) meetingId, map_of (meetings s) meetingId) of
        (Some session, Some meeting0) \<Rightarrow>
          (let meeting = meeting0 \<lparr> m_status := Completed,
                                    m_endedAt := Some (now e),
                                    m_duration := roundMinutes (now e - s_startTime session) \<rparr>;
               s1 = s \<lparr> meetings := AList.update meetingId meeting (meetings s) \<rparr>;
               meetingData = \<lparr> md_id = meetingId,
                               md_title = m_title meeting,
                               md_participants = s_participants session,
                               md_responses = s_responses session,
                               md_date = s_startTime session,
                               md_duration = m_duration meeting \<rparr>;
               summarized = summarizeMeeting e meetingData;
               analysed = analyzeBlockers e (sm_blockers (fst summarized));
               s2 = emit ([SummarizeMeeting meetingId] @ snd summarized @
                          [AnalyzeBlockers] @ snd analysed @
                          [SendMeetingSummary (m_participants meeting) (m_title meeting)]) s1
           in if summaryMailFails e then failEnd ''Failed to send meeting summary'' s2
              else
                (let s3 = (if an_requiresEscalation (fst analysed)
                           then alertTeamLead e meetingId (fst analysed) s2 else s2);
                     s4 = emit [UpdateTasksFromMeeting meetingId] s3
                 in (Inr \<lparr> er_summary = fst summarized,
                           er_blockerAnalysis = fst analysed,
                           er_meetingData = meetingData \<rparr>,
                     s4 \<lparr> activeSessions := AList.delete meetingId (activeSessions s4) \<rparr>)))
      | _ \<Rightarrow> failEnd ''Meeting or session not found'' s)"

definition checkMeetingCompletion :: "env \<Rightarrow> string \<Rightarrow> service \<Rightarrow> (error + unit) \<times> service" where
  "checkMeetingCompletion e meetingId s =
     (case map_of (activeSessions s) meetingId of
        None \<Rightarrow> (Inl (Error ''TypeError''), s)
      | Some session \<Rightarrow>
          (let completedParticipants =
                 length (filter ss_isComplete (map snd (s_activeStandupSessions session)))
           in if completedParticipants = length (s_participants session) then
                (case endMeeting e meetingId s of
                   (Inl err, s1) \<Rightarrow> (Inl err, s1)
                 | (Inr r, s1) \<Rightarrow> (Inr (), s1))
              else (Inr (), s)))"

subsection \<open>Submitting an answer\<close>

definition failSubmit :: "string \<Rightarrow> service \<Rightarrow> (error + response_data) \<times> service" where
  "failSubmit msg s =
     (Inl (Error ''Failed to submit standup response''),
      emit [ConsoleError ''Error submitting standup response:'' msg] s)"

definition completionMessage :: string where
  "completionMessage =
     ''Thank you for your standup update! You can now leave the meeting or wait for others to finish.''"

text \<open>The session after the sub-session of \<open>participantName\<close> was replaced by the processed one.\<close>

definition withStandup :: "string \<Rightarrow> standup \<Rightarrow> session \<Rightarrow> session" where
  "withStandup participantName updatedSession session =
     session \<lparr> s_activeStandupSessions :=
                 AList.update participantName updatedSession (s_activeStandupSessions session) \<rparr>"

text \<open>
  \<open>session.responses[participantIndex] = updatedSession.responses\<close>, where the index is
  \<open>indexOf\<close>: with -1 the assignment creates a property that is no element of the array.
\<close>

definition storeResponses :: "string \<Rightarrow> standup \<Rightarrow> session \<Rightarrow> session" where
  "storeResponses participantName updatedSession session =
     (case indexOf (s_participants session) participantName of
        None \<Rightarrow> session
      | Some participantIndex \<Rightarrow>
          session \<lparr> s_responses :=
                      js_set (s_responses session) participantIndex (ss_responses updatedSession) \<rparr>)"

definition submitStandupResponse ::
  "env \<Rightarrow> string \<Rightarrow> string \<Rightarrow> string \<Rightarrow> service \<Rightarrow> (error + response_data) \<times> service" where
  "submitStandupResponse e meetingId participantName response s =
     (case map_of (activeSessions s) meetingId of
        None \<Rightarrow> failSubmit ''Meeting session not found'' s
      | Some session \<Rightarrow>
          (case map_of (s_activeStandupSessions session) participantName of
             None \<Rightarrow> failSubmit ''Standup session not found for participant'' s
           | Some standupSession \<Rightarrow>
               (let processed = processStandupResponse e standupSession response
                                  (ss_currentQuestionIndex standupSession);
                    updatedSession = fst processed;
                    session1 = withStandup participantName updatedSession session;
                    s1 = emit (snd processed)
                           (s \<lparr> activeSessions :=
                                  AList.update meetingId session1 (activeSessions s) \<rparr>)
                in if \<not> ss_isComplete updatedSession then
                     (Inr \<lparr> rd_acknowledgment = ss_lastAIResponse updatedSession,
                            rd_isComplete = ss_isComplete updatedSession,
                            rd_nextQuestion = js_get (ss_questions updatedSession)
                                                (ss_currentQuestionIndex updatedSession),
                            rd_completionMessage = None \<rparr>, s1)
                   else
                     (let session2 = storeResponses participantName updatedSession session1;
                          s2 = s1 \<lparr> activeSessions :=
                                     AList.update meetingId session2 (activeSessions s1) \<rparr>
                      in case checkMeetingCompletion e meetingId s2 of
                           (Inl (Error msg), s3) \<Rightarrow> failSubmit msg s3
                         | (Inr u, s3) \<Rightarrow>
                             (Inr \<lparr> rd_acknowledgment = ss_lastAIResponse updatedSession,
                                    rd_isComplete = ss_isComplete updatedSession,
                                    rd_nextQuestion = None,
                                    rd_completionMessage = Some completionMessage \<rparr>, s3)))))"

subsection \<open>Cancelling\<close>

definition cancelMeeting :: "env \<Rightarrow> string \<Rightarrow> service \<Rightarrow> (error + meeting) \<times> service" where
  "cancelMeeting e meetingId s =
     (case map_of (meetings s) meetingId of
        None \<Rightarrow>
          (Inl (Error ''Failed to cancel meeting''),
           emit [ConsoleError ''Error cancelling meeting:'' ''Meeting not found''] s)
      | Some meeting0 \<Rightarrow>
          (let meeting = meeting0 \<lparr> m_status := Cancelled \<rparr>;
               s1 = s \<lparr> meetings := AList.update meetingId meeting (meetings s) \<rparr>;
               s2 = (case map_of (scheduledJobs s1) meetingId of
                       None \<Rightarrow> s1
                     | Some job \<Rightarrow>
                         s1 \<lparr> scheduledJobs := AList.delete meetingId (scheduledJobs s1) \<rparr>)
           in (Inr meeting,
               notifyParticipants e meeting ''Meeting Cancelled''
                 (''The meeting '' @ [CHR 0x22] @ m_title meeting @ [CHR 0x22] @
                  '' has been cancelled.'') s2)))"

subsection \<open>The triggers\<close>

text \<open>
  What the runtime does with the callbacks the service registered. A pending timeout
  whose instant has come is taken off the timer list and runs \<open>startMeeting\<close>; a cron job
  that is still registered runs \<open>startMeeting\<close> at each of its firings.
\<close>

definition timerFires :: "env \<Rightarrow> string \<Rightarrow> instant \<Rightarrow> service \<Rightarrow> service" where
  "timerFires e meetingId due s =
     (if (meetingId, due) \<in> set (timers s) \<and> due \<le> now e then
        snd (startMeeting e meetingId (s \<lparr> timers := remove1 (meetingId, due) (timers s) \<rparr>))
      else s)"

definition cronFires :: "env \<Rightarrow> string \<Rightarrow> service \<Rightarrow> service" where
  "cronFires e meetingId s =
     (case map_of (scheduledJobs s) meetingId of
        None \<Rightarrow> s
      | Some job \<Rightarrow> snd (startMeeting e meetingId s))"

subsection \<open>Runs of the service\<close>

datatype operation =
  ScheduleMeeting meeting_spec
| StartMeeting string
| JoinMeeting string string
| SubmitStandupResponse string string string
| EndMeeting string
| CancelMeeting string
| TimerFires string instant
| CronFires string

fun exec :: "env \<times> operation \<Rightarrow> service \<Rightarrow> service" where
  "exec (e, ScheduleMeeting meetingData) s = snd (scheduleMeeting e meetingData s)"
| "exec (e, StartMeeting meetingId) s = snd (startMeeting e meetingId s)"
| "exec (e, JoinMeeting meetingId participantName) s = snd (joinMeeting e meetingId participantName s)"
| "exec (e, SubmitStandupResponse meetingId participantName response) s =
     snd (submitStandupResponse e meetingId participantName response s)"
| "exec (e, EndMeeting meetingId) s = snd (endMeeting e meetingId s)"
| "exec (e, CancelMeeting meetingId) s = snd (cancelMeeting e meetingId s)"
| "exec (e, TimerFires meetingId due) s = timerFires e meetingId due s"
| "exec (e, CronFires meetingId) s = cronFires e meetingId s"

text \<open>A run executes its operations one after the other, each to its end.\<close>

definition run :: "(env \<times> operation) list \<Rightarrow> service \<Rightarrow> service" where
  "run ops s = foldl (\<lambda>s' x. exec x s') s ops"


subsection \<open>Observations on a service state\<close>

definition statusOf :: "service \<Rightarrow> string \<Rightarrow> status option" where
  "statusOf s meetingId = map_option m_status (map_of (meetings s) meetingId)"

definition standupOf :: "service \<Rightarrow> string \<Rightarrow> string \<Rightarrow> standup option" where
  "standupOf s meetingId participantName =
     (case map_of (activeSessions s) meetingId of
        None \<Rightarrow> None
      | Some session \<Rightarrow> map_of (s_activeStandupSessions session) participantName)"

text \<open>How often the finalizer got past its guard for a meeting: once for each call of
  the summarizer with that meeting's data.\<close>

definition finalizerRuns :: "string \<Rightarrow> service \<Rightarrow> nat" where
  "finalizerRuns meetingId s = length (filter (\<lambda>ev. ev = SummarizeMeeting meetingId) (trace s))"

subsection \<open>The response table and completion\<close>

text \<open>
  The specification's invariant, in its words: in every live session and for every index
  \<open>i\<close> into the participant list, slot \<open>i\<close> of the response table is populated if and
  only if the sub-session of participant \<open>i\<close> has \<open>isComplete\<close> true.
\<close>

definition populated :: "session \<Rightarrow> nat \<Rightarrow> bool" where
  "populated session i = (js_read (s_responses session) i \<noteq> None)"

definition participantComplete :: "session \<Rightarrow> nat \<Rightarrow> bool" where
  "participantComplete session i =
     (case js_get (s_participants session) i of
        None \<Rightarrow> False
      | Some name \<Rightarrow>
          (case map_of (s_activeStandupSessions session) name of
             None \<Rightarrow> False
           | Some standupSession \<Rightarrow> ss_isComplete standupSession))"

definition responsesMatchCompletion :: "service \<Rightarrow> bool" where
  "responsesMatchCompletion s =
     list_all (\<lambda>(meetingId, session).
        list_all (\<lambda>i. populated session i = participantComplete session i)
          [0..<length (s_participants session)])
       (activeSessions s)"

text \<open>
  What the code keeps. A complete sub-session has its answers in the slot at the first
  position of its participant's name; and a populated slot is the first position of its
  participant, who has a sub-session.
\<close>

definition completedStored :: "session \<Rightarrow> bool" where
  "completedStored session =
     list_all (\<lambda>(name, standupSession).
        ss_isComplete standupSession \<longrightarrow>
        (case indexOf (s_participants session) name of
           None \<Rightarrow> True
         | Some i \<Rightarrow> js_read (s_responses session) i = Some (ss_responses standupSession)))
       (s_activeStandupSessions session)"

definition populatedOwned :: "session \<Rightarrow> bool" where
  "populatedOwned session =
     list_all (\<lambda>i. populated session i \<longrightarrow>
        (case js_get (s_participants session) i of
           None \<Rightarrow> False
         | Some name \<Rightarrow>
             indexOf (s_participants session) name = Some i \<and>
             map_of (s_activeStandupSessions session) name \<noteq> None))
       [0..<length (s_responses session)]"

definition tableSound :: "service \<Rightarrow> bool" where
  "tableSound s =
     list_all (\<lambda>(meetingId, session). completedStored session \<and> populatedOwned session)
       (activeSessions s)"

text \<open>The keys of the sub-session \<open>Map\<close> are unique; with that, the invariant of a session.\<close>

definition sessionInv :: "session \<Rightarrow> bool" where
  "sessionInv session =
     (distinct (map fst (s_activeStandupSessions session)) \<and>
      completedStored session \<and> populatedOwned session)"

definition serviceInv :: "service \<Rightarrow> bool" where
  "serviceInv s = list_all (\<lambda>(meetingId, session). sessionInv session) (activeSessions s)"

subsection \<open>Negation tokens\<close>






subsection \<open>The detector's test and the operations that start a meeting\<close>



section \<open>Sample worlds and runs\<close>

text \<open>A world at instant \<open>t\<close> in which every collaborator call succeeds.\<close>

definition world :: "instant \<Rightarrow> env" where
  "world t = \<lparr> now = t, generate = (\<lambda>p r. ''Noted.''), uuid = ''m1'',
                summaryMailFails = False, alertMailFails = False, notifyMailFails = False,
                timeZoneKnown = (\<lambda>zone. zone = ''UTC''), teamLeadEmail = None \<rparr>"

text \<open>A one-time meeting for alice at instant 5000, with the virtual facilitator.\<close>

definition aliceSpec :: meeting_spec where
  "aliceSpec = \<lparr> sp_title = Some ''Standup'', sp_participants = Some [''alice''],
                  sp_scheduledTime = 5000, sp_duration = None,
                  sp_isVirtualScrumMaster = Some True, sp_timezone = None,
                  sp_recurrence = None, sp_createdBy = None \<rparr>"

text \<open>The same meeting scheduled for instant 3000000000, more than 2147483647 ms after
  instant 1000.\<close>

definition farSpec :: meeting_spec where
  "farSpec = aliceSpec \<lparr> sp_scheduledTime := 3000000000 \<rparr>"

text \<open>The same meeting for alice and bob.\<close>

definition teamSpec :: meeting_spec where
  "teamSpec = aliceSpec \<lparr> sp_participants := Some [''alice'', ''bob''] \<rparr>"

text \<open>Alice's meeting, started by its timer.\<close>

definition startedAlice :: service where
  "startedAlice =
     run [(world 1000, ScheduleMeeting aliceSpec), (world 5000, TimerFires ''m1'' 5000)] initial"

text \<open>A daily meeting for alice, in progress after a firing of its cron job.\<close>

definition dailySpec :: meeting_spec where
  "dailySpec = aliceSpec \<lparr> sp_recurrence := Some ''daily'' \<rparr>"

definition startedDaily :: service where
  "startedDaily =
     run [(world 1000, ScheduleMeeting dailySpec), (world 5000, CronFires ''m1'')] initial"

definition startedDailyMeeting :: meeting where
  "startedDailyMeeting = the (map_of (meetings startedDaily) ''m1'')"

text \<open>The team meeting after alice has answered her three questions; bob has not joined,
  so the session is still live.\<close>

definition aliceDoneOps :: "(env \<times> operation) list" where
  "aliceDoneOps =
     [(world 1000, ScheduleMeeting teamSpec), (world 5000, TimerFires ''m1'' 5000),
      (world 6000, JoinMeeting ''m1'' ''alice''),
      (world 7000, SubmitStandupResponse ''m1'' ''alice'' ''wrote the parser''),
      (world 8000, SubmitStandupResponse ''m1'' ''alice'' ''write the tests''),
      (world 9000, SubmitStandupResponse ''m1'' ''alice'' ''none'')]"

definition aliceDone :: service where
  "aliceDone = run aliceDoneOps initial"

definition aliceDoneSession :: session where
  "aliceDoneSession = the (map_of (activeSessions aliceDone) ''m1'')"

definition aliceDoneStandup :: standup where
  "aliceDoneStandup = the (map_of (s_activeStandupSessions aliceDoneSession) ''alice'')"

definition aliceDoneMeeting :: meeting where
  "aliceDoneMeeting = the (map_of (meetings aliceDone) ''m1'')"

text \<open>Alice's meeting, started and then ended by an explicit end request.\<close>

definition endedAlice :: service where
  "endedAlice =
     run [(world 1000, ScheduleMeeting aliceSpec), (world 5000, TimerFires ''m1'' 5000),
          (world 9000, EndMeeting ''m1'')] initial"

definition endedAliceMeeting :: meeting where
  "endedAliceMeeting = the (map_of (meetings endedAlice) ''m1'')"

text \<open>Alice's meeting, scheduled for instant 5000 and cancelled at instant 2000.\<close>

definition cancelledAlice :: service where
  "cancelledAlice =
     run [(world 1000, ScheduleMeeting aliceSpec), (world 2000, CancelMeeting ''m1'')] initial"

text \<open>The daily meeting, cancelled at instant 2000.\<close>

definition cancelledDaily :: service where
  "cancelledDaily =
     run [(world 1000, ScheduleMeeting dailySpec), (world 2000, CancelMeeting ''m1'')] initial"

text \<open>Worlds in which the summary mail or the alert mail fails.\<close>

definition mailDown :: "instant \<Rightarrow> env" where
  "mailDown t = (world t) \<lparr> summaryMailFails := True \<rparr>"

definition alertDown :: "instant \<Rightarrow> env" where
  "alertDown t = (world t) \<lparr> alertMailFails := True \<rparr>"

text \<open>The team meeting after alice reported an urgent blocker.\<close>

definition aliceBlocked :: service where
  "aliceBlocked =
     run [(world 1000, ScheduleMeeting teamSpec), (world 5000, TimerFires ''m1'' 5000),
          (world 6000, JoinMeeting ''m1'' ''alice''),
          (world 7000, SubmitStandupResponse ''m1'' ''alice'' ''wrote the parser''),
          (world 8000, SubmitStandupResponse ''m1'' ''alice'' ''write the tests''),
          (world 9000, SubmitStandupResponse ''m1'' ''alice''
             ''I am blocked by a failing build, urgent'')] initial"




text \<open>A meeting that lists alice twice, after she has answered her three questions.\<close>

definition twiceSpec :: meeting_spec where
  "twiceSpec = aliceSpec \<lparr> sp_participants := Some [''alice'', ''alice''] \<rparr>"

definition aliceTwice :: service where
  "aliceTwice =
     run [(world 1000, ScheduleMeeting twiceSpec), (world 5000, TimerFires ''m1'' 5000),
          (world 6000, JoinMeeting ''m1'' ''alice''),
          (world 7000, SubmitStandupResponse ''m1'' ''alice'' ''wrote the parser''),
          (world 8000, SubmitStandupResponse ''m1'' ''alice'' ''write the tests''),
          (world 9000, SubmitStandupResponse ''m1'' ''alice'' ''none'')] initial"

text \<open>The team meeting after alice, done with her answers, has joined once more.\<close>

definition aliceRejoined :: service where
  "aliceRejoined = snd (joinMeeting (world 10000) ''m1'' ''alice'' aliceDone)"






section \<open>Properties\<close>

subsection \<open>Helper facts\<close>


lemma emit_Nil: "emit [] s = s"
  by (simp add: emit_def)



subsection \<open>The acknowledgment of the third answer\<close>




subsection \<open>Cancelling leaves the live session alone\<close>

text \<open>
  Claim C9. \<open>cancelMeeting\<close> on a registered meeting, whatever its status and so in
  particular when it is in progress, returns the meeting with only its status changed to
  cancelled and stores that record under the identifier; the table of live sessions is
  the same afterwards, entry for entry and field for field; the recurring job registered
  for the identifier, if any, is removed; pending timeouts are untouched.
\<close>

theorem cancelMeeting_frame:
  assumes "map_of (meetings s) meetingId = Some meeting"
  shows "fst (cancelMeeting e meetingId s) = Inr (meeting \<lparr> m_status := Cancelled \<rparr>) \<and>
         map_of (meetings (snd (cancelMeeting e meetingId s))) =
           (map_of (meetings s))(meetingId \<mapsto> meeting \<lparr> m_status := Cancelled \<rparr>) \<and>
         activeSessions (snd (cancelMeeting e meetingId s)) = activeSessions s \<and>
         map_of (scheduledJobs (snd (cancelMeeting e meetingId s))) =
           (map_of (scheduledJobs s))(meetingId := None) \<and>
         timers (snd (cancelMeeting e meetingId s)) = timers s"
  using assms
  by (auto simp: cancelMeeting_def notifyParticipants_def emit_def Let_def update_conv'
      delete_conv' split: option.splits)

theorem cancelMeeting_frame_witness:
  "map_of (meetings startedDaily) ''m1'' = Some startedDailyMeeting \<and>
   m_status startedDailyMeeting = InProgress \<and>
   activeSessions startedDaily \<noteq> [] \<and>
   scheduledJobs startedDaily \<noteq> [] \<and>
   fst (cancelMeeting (world 6000) ''m1'' startedDaily) =
     Inr (startedDailyMeeting \<lparr> m_status := Cancelled \<rparr>) \<and>
   activeSessions (snd (cancelMeeting (world 6000) ''m1'' startedDaily)) = activeSessions startedDaily \<and>
   map_of (scheduledJobs (snd (cancelMeeting (world 6000) ''m1'' startedDaily))) ''m1'' = None"
proof -
  have h: "map_of (meetings startedDaily) ''m1'' = Some startedDailyMeeting"
    by code_simp
  have a: "m_status startedDailyMeeting = InProgress"
    by code_simp
  have b: "activeSessions startedDaily \<noteq> []" "scheduledJobs startedDaily \<noteq> []"
    by code_simp+
  from cancelMeeting_frame [OF h, of "world 6000"] h a b show ?thesis
    by simp
qed

subsection \<open>A submission after completion\<close>

text \<open>
  Claim C10. \<open>submitStandupResponse\<close> has no check of \<open>isComplete\<close>. For a participant
  whose sub-session is complete, with current index \<open>k\<close> at or past the three questions
  (\<open>k = 3\<close> right after completion), the submission stores one more answer at index \<open>k\<close>
  whose question is undefined, advances the index to \<open>k + 1\<close>, keeps \<open>isComplete\<close> true,
  makes no call to the language model (the acknowledgment is the empty text), overwrites
  the participant's row of the response table with the longer answer list and then runs
  the completion detector on that state; the submission fails only if the detector does.
\<close>

theorem submit_after_completion:
  assumes "map_of (activeSessions s) meetingId = Some session"
    and "map_of (s_activeStandupSessions session) p = Some standupSession"
    and "ss_isComplete standupSession"
    and "ss_currentQuestionIndex standupSession = k" and "3 \<le> k"
    and "length (ss_questions standupSession) = 3"
    and "indexOf (s_participants session) p = Some i"
  shows "(let updatedSession = standupSession
              \<lparr> ss_responses := js_set (ss_responses standupSession) k
                                  \<lparr> question = None, answer = response, timestamp = now e \<rparr>,
                ss_currentQuestionIndex := k + 1,
                ss_lastAIResponse := Some [],
                ss_isComplete := True \<rparr>;
            session2 = session
              \<lparr> s_activeStandupSessions :=
                  AList.update p updatedSession (s_activeStandupSessions session),
                s_responses := js_set (s_responses session) i (ss_responses updatedSession) \<rparr>;
            s2 = s \<lparr> activeSessions := AList.update meetingId session2 (activeSessions s) \<rparr>
        in submitStandupResponse e meetingId p response s =
           (case checkMeetingCompletion e meetingId s2 of
              (Inl (Error msg), s3) \<Rightarrow> failSubmit msg s3
            | (Inr u, s3) \<Rightarrow>
                (Inr \<lparr> rd_acknowledgment = Some [], rd_isComplete = True,
                       rd_nextQuestion = None,
                       rd_completionMessage = Some completionMessage \<rparr>, s3)))"
proof -
  have ack: "acknowledge e response k = ([], [])"
    using assms(5) by (simp add: acknowledge_def)
  have q: "js_get (ss_questions standupSession) k = None"
    using assms(5,6) by (simp add: js_get_def)
  show ?thesis
    using assms(1,2,4,5,7) ack q
    by (simp add: submitStandupResponse_def processStandupResponse_def Let_def emit_Nil
        withStandup_def storeResponses_def split: prod.split sum.split error.split)
qed

theorem submit_after_completion_witness:
  "map_of (activeSessions aliceDone) ''m1'' = Some aliceDoneSession \<and>
   map_of (s_activeStandupSessions aliceDoneSession) ''alice'' = Some aliceDoneStandup \<and>
   ss_isComplete aliceDoneStandup \<and>
   ss_currentQuestionIndex aliceDoneStandup = 3 \<and>
   length (ss_questions aliceDoneStandup) = 3 \<and>
   length (ss_responses aliceDoneStandup) = 3 \<and>
   indexOf (s_participants aliceDoneSession) ''alice'' = Some 0 \<and>
   (let updatedSession = aliceDoneStandup
              \<lparr> ss_responses := js_set (ss_responses aliceDoneStandup) 3
                                  \<lparr> question = None, answer = ''one more thing'',
                                    timestamp = now (world 10000) \<rparr>,
                ss_currentQuestionIndex := 3 + 1,
                ss_lastAIResponse := Some [],
                ss_isComplete := True \<rparr>;
        session2 = aliceDoneSession
              \<lparr> s_activeStandupSessions :=
                  AList.update ''alice'' updatedSession (s_activeStandupSessions aliceDoneSession),
                s_responses := js_set (s_responses aliceDoneSession) 0 (ss_responses updatedSession) \<rparr>;
        s2 = aliceDone \<lparr> activeSessions := AList.update ''m1'' session2 (activeSessions aliceDone) \<rparr>
    in submitStandupResponse (world 10000) ''m1'' ''alice'' ''one more thing'' aliceDone =
       (case checkMeetingCompletion (world 10000) ''m1'' s2 of
          (Inl (Error msg), s3) \<Rightarrow> failSubmit msg s3
        | (Inr u, s3) \<Rightarrow>
            (Inr \<lparr> rd_acknowledgment = Some [], rd_isComplete = True,
                   rd_nextQuestion = None,
                   rd_completionMessage = Some completionMessage \<rparr>, s3))) \<and>
   fst (submitStandupResponse (world 10000) ''m1'' ''alice'' ''one more thing'' aliceDone) =
     Inr \<lparr> rd_acknowledgment = Some [], rd_isComplete = True, rd_nextQuestion = None,
           rd_completionMessage = Some completionMessage \<rparr> \<and>
   map_option ss_currentQuestionIndex
     (standupOf (snd (submitStandupResponse (world 10000) ''m1'' ''alice'' ''one more thing'' aliceDone))
        ''m1'' ''alice'') = Some 4 \<and>
   map_option (\<lambda>x. js_read (ss_responses x) 3)
     (standupOf (snd (submitStandupResponse (world 10000) ''m1'' ''alice'' ''one more thing'' aliceDone))
        ''m1'' ''alice'') =
     Some (Some \<lparr> question = None, answer = ''one more thing'', timestamp = 10000 \<rparr>)"
proof -
  have r1: "fst (submitStandupResponse (world 10000) ''m1'' ''alice'' ''one more thing'' aliceDone) =
     Inr \<lparr> rd_acknowledgment = Some [], rd_isComplete = True, rd_nextQuestion = None,
           rd_completionMessage = Some completionMessage \<rparr>"
    by code_simp
  have r2: "map_option ss_currentQuestionIndex
     (standupOf (snd (submitStandupResponse (world 10000) ''m1'' ''alice'' ''one more thing'' aliceDone))
        ''m1'' ''alice'') = Some 4"
    by code_simp
  have r3: "map_option (\<lambda>x. js_read (ss_responses x) 3)
     (standupOf (snd (submitStandupResponse (world 10000) ''m1'' ''alice'' ''one more thing'' aliceDone))
        ''m1'' ''alice'') =
     Some (Some \<lparr> question = None, answer = ''one more thing'', timestamp = 10000 \<rparr>)"
    by code_simp
  have h1: "map_of (activeSessions aliceDone) ''m1'' = Some aliceDoneSession"
    by code_simp
  have h2: "map_of (s_activeStandupSessions aliceDoneSession) ''alice'' = Some aliceDoneStandup"
    by code_simp
  have h3: "ss_isComplete aliceDoneStandup"
    by code_simp
  have h4: "ss_currentQuestionIndex aliceDoneStandup = 3"
    by code_simp
  have h5: "length (ss_questions aliceDoneStandup) = 3"
    by code_simp
  have h6: "length (ss_responses aliceDoneStandup) = 3"
    by code_simp
  have h7: "indexOf (s_participants aliceDoneSession) ''alice'' = Some 0"
    by code_simp
  note t = submit_after_completion [OF h1 h2 h3 h4 order_refl h5 h7,
      where e = "world 10000" and response = "''one more thing''"]
  from h1 h2 h3 h4 h5 h6 h7 t r1 r2 r3 show ?thesis
    by (intro conjI) assumption+
qed

subsection \<open>Joining again\<close>

text \<open>
  Claim C7, as the code has it. \<open>joinMeeting\<close> never looks for an existing sub-session:
  for an invited participant of a live session with the virtual-facilitator flag it
  always stores the sub-session \<open>conductStandupSession\<close> builds (index 0, no answers, not
  complete) under the participant's name, replacing what was there, and returns the
  first question; the response table of the session is left as it was.
\<close>

theorem joinMeeting_fresh_standup:
  assumes "map_of (activeSessions s) meetingId = Some session"
    and "map_of (meetings s) meetingId = Some meeting"
    and "p \<in> set (m_participants meeting)"
    and "s_isVirtualScrumMaster session"
  shows "standupOf (snd (joinMeeting e meetingId p s)) meetingId p = Some (conductStandupSession e p) \<and>
         ss_currentQuestionIndex (conductStandupSession e p) = 0 \<and>
         ss_responses (conductStandupSession e p) = [] \<and>
         \<not> ss_isComplete (conductStandupSession e p) \<and>
         map_sum id j_firstQuestion (fst (joinMeeting e meetingId p s)) =
           Inr (js_get (ss_questions (conductStandupSession e p)) 0) \<and>
         map_option s_responses (map_of (activeSessions (snd (joinMeeting e meetingId p s))) meetingId) =
           Some (s_responses session)"
  using assms
  by (simp add: joinMeeting_def standupOf_def Let_def update_conv' conductStandupSession_def)

theorem joinMeeting_fresh_standup_witness:
  "map_of (activeSessions aliceDone) ''m1'' = Some aliceDoneSession \<and>
   map_of (meetings aliceDone) ''m1'' = Some aliceDoneMeeting \<and>
   ''alice'' \<in> set (m_participants aliceDoneMeeting) \<and>
   s_isVirtualScrumMaster aliceDoneSession \<and>
   standupOf (snd (joinMeeting (world 10000) ''m1'' ''alice'' aliceDone)) ''m1'' ''alice'' =
     Some (conductStandupSession (world 10000) ''alice'')"
proof -
  have h1: "map_of (activeSessions aliceDone) ''m1'' = Some aliceDoneSession"
    by code_simp
  have h2: "map_of (meetings aliceDone) ''m1'' = Some aliceDoneMeeting"
    by code_simp
  have h3: "''alice'' \<in> set (m_participants aliceDoneMeeting)"
    by code_simp
  have h4: "s_isVirtualScrumMaster aliceDoneSession"
    by code_simp
  from joinMeeting_fresh_standup [OF h1 h2 h3 h4, of "world 10000"] h1 h2 h3 h4
  show ?thesis
    by simp
qed

text \<open>
  The claim as stated fails: alice, complete at index 3 with three answers, joins again
  and is back at index 0 with no answers and \<open>isComplete\<close> false.
\<close>

theorem rejoin_resets_progress:
  "map_option ss_currentQuestionIndex (standupOf aliceDone ''m1'' ''alice'') = Some 3 \<and>
   map_option ss_isComplete (standupOf aliceDone ''m1'' ''alice'') = Some True \<and>
   map_option (length \<circ> ss_responses) (standupOf aliceDone ''m1'' ''alice'') = Some 3 \<and>
   map_option ss_currentQuestionIndex
     (standupOf (snd (joinMeeting (world 10000) ''m1'' ''alice'' aliceDone)) ''m1'' ''alice'') = Some 0 \<and>
   map_option ss_isComplete
     (standupOf (snd (joinMeeting (world 10000) ''m1'' ''alice'' aliceDone)) ''m1'' ''alice'') = Some False \<and>
   map_option ss_responses
     (standupOf (snd (joinMeeting (world 10000) ''m1'' ''alice'' aliceDone)) ''m1'' ''alice'') = Some []"
  by code_simp

subsection \<open>Status transitions\<close>

text \<open>
  Claim C2, as the code has it. No operation reads the status before it writes it. On a
  registered meeting \<open>startMeeting\<close> always succeeds and sets the status to in-progress,
  \<open>cancelMeeting\<close> always sets it to cancelled, and \<open>endMeeting\<close> sets it to completed
  whenever the meeting has a live session, each from whatever status the meeting had,
  completed and cancelled included; without a live session \<open>endMeeting\<close> fails and
  leaves the status as it was.
\<close>

theorem status_written_unconditionally:
  assumes "map_of (meetings s) meetingId = Some meeting"
  shows "statusOf (snd (startMeeting e meetingId s)) meetingId = Some InProgress \<and>
         map_sum id s_meetingId (fst (startMeeting e meetingId s)) = Inr meetingId \<and>
         statusOf (snd (cancelMeeting e meetingId s)) meetingId = Some Cancelled \<and>
         statusOf (snd (endMeeting e meetingId s)) meetingId =
           (if map_of (activeSessions s) meetingId = None then Some (m_status meeting)
            else Some Completed) \<and>
         (if map_of (activeSessions s) meetingId = None
          then isl (fst (endMeeting e meetingId s)) else True)"
proof -
  have a: "statusOf (snd (startMeeting e meetingId s)) meetingId = Some InProgress"
    using assms
    by (simp add: startMeeting_def statusOf_def notifyParticipants_def emit_def Let_def update_conv')
  have b: "map_sum id s_meetingId (fst (startMeeting e meetingId s)) = Inr meetingId"
    using assms by (simp add: startMeeting_def Let_def)
  have c: "statusOf (snd (cancelMeeting e meetingId s)) meetingId = Some Cancelled"
    using assms
    by (simp add: cancelMeeting_def statusOf_def notifyParticipants_def emit_def Let_def
        update_conv' split: option.split)
  have d: "statusOf (snd (endMeeting e meetingId s)) meetingId =
           (if map_of (activeSessions s) meetingId = None then Some (m_status meeting)
            else Some Completed)"
    using assms
    by (auto simp: endMeeting_def statusOf_def failEnd_def alertTeamLead_def emit_def Let_def
        update_conv' split: option.split)
  have f: "map_of (activeSessions s) meetingId = None \<Longrightarrow> isl (fst (endMeeting e meetingId s))"
    by (simp add: endMeeting_def failEnd_def)
  from a b c d f show ?thesis
    by simp
qed

theorem status_written_unconditionally_witness:
  "map_of (meetings endedAlice) ''m1'' = Some endedAliceMeeting \<and>
   m_status endedAliceMeeting = Completed \<and>
   statusOf (snd (startMeeting (world 10000) ''m1'' endedAlice)) ''m1'' = Some InProgress \<and>
   statusOf (snd (cancelMeeting (world 10000) ''m1'' endedAlice)) ''m1'' = Some Cancelled \<and>
   statusOf (snd (endMeeting (world 10000) ''m1'' endedAlice)) ''m1'' = Some Completed"
proof -
  have h: "map_of (meetings endedAlice) ''m1'' = Some endedAliceMeeting"
    by code_simp
  have a: "m_status endedAliceMeeting = Completed"
    by code_simp
  have b: "map_of (activeSessions endedAlice) ''m1'' = None"
    by code_simp
  from status_written_unconditionally [OF h, of "world 10000"] h a b show ?thesis
    by simp
qed

text \<open>
  The claim as stated fails: a completed meeting is moved to in-progress by
  \<open>startMeeting\<close>, which succeeds and returns a new session, and to cancelled by
  \<open>cancelMeeting\<close>.
\<close>

theorem completed_meeting_restarts:
  "statusOf endedAlice ''m1'' = Some Completed \<and>
   fst (startMeeting (world 10000) ''m1'' endedAlice) =
     Inr \<lparr> s_meetingId = ''m1'', s_participants = [''alice''], s_responses = [],
           s_currentParticipantIndex = 0, s_activeStandupSessions = [],
           s_startTime = 10000, s_isVirtualScrumMaster = True \<rparr> \<and>
   statusOf (snd (startMeeting (world 10000) ''m1'' endedAlice)) ''m1'' = Some InProgress \<and>
   statusOf (snd (cancelMeeting (world 10000) ''m1'' endedAlice)) ''m1'' = Some Cancelled"
  by code_simp

subsection \<open>Scheduling a one-time meeting\<close>

text \<open>
  Claim C5, as the code has it. For a spec whose recurrence is not daily:
  when the scheduled instant is strictly before now, \<open>scheduleMeeting\<close> fails with the
  general error `Failed to schedule meeting' (the cause is only logged) and registers no
  trigger; when the instant is now or later it succeeds, the meeting it returns has
  status scheduled and is in the registry under its identifier, and one timeout is
  pending for it, due at the scheduled instant when that is between 1 ms and
  2147483647 ms ahead and due 1 ms from now otherwise.
\<close>

theorem scheduleMeeting_one_time:
  assumes "sp_recurrence meetingData \<noteq> Some ''daily''"
  shows "(if sp_scheduledTime meetingData < now e then
            fst (scheduleMeeting e meetingData s) = Inl (Error ''Failed to schedule meeting'') \<and>
            timers (snd (scheduleMeeting e meetingData s)) = timers s \<and>
            scheduledJobs (snd (scheduleMeeting e meetingData s)) = scheduledJobs s
          else
            fst (scheduleMeeting e meetingData s) = Inr (newMeeting e meetingData) \<and>
            m_status (newMeeting e meetingData) = Scheduled \<and>
            map_of (meetings (snd (scheduleMeeting e meetingData s))) (uuid e) =
              Some (newMeeting e meetingData) \<and>
            timers (snd (scheduleMeeting e meetingData s)) =
              timers s @
              [(uuid e,
                if 1 \<le> sp_scheduledTime meetingData - now e \<and>
                   sp_scheduledTime meetingData - now e \<le> 2147483647
                then sp_scheduledTime meetingData else now e + 1)])"
  using assms
  by (simp add: scheduleMeeting_def scheduleOneTimeMeeting_def timeoutDelay_def newMeeting_def
      emit_def Let_def update_conv')

theorem scheduleMeeting_one_time_witness:
  "sp_recurrence aliceSpec \<noteq> Some ''daily'' \<and>
   sp_scheduledTime aliceSpec < now (world 6000) \<and>
   fst (scheduleMeeting (world 6000) aliceSpec initial) = Inl (Error ''Failed to schedule meeting'') \<and>
   now (world 1000) < sp_scheduledTime aliceSpec \<and>
   fst (scheduleMeeting (world 1000) aliceSpec initial) = Inr (newMeeting (world 1000) aliceSpec) \<and>
   m_status (newMeeting (world 1000) aliceSpec) = Scheduled \<and>
   timers (snd (scheduleMeeting (world 1000) aliceSpec initial)) = [(''m1'', 5000)] \<and>
   sp_recurrence farSpec \<noteq> Some ''daily'' \<and>
   now (world 1000) < sp_scheduledTime farSpec \<and>
   timers (snd (scheduleMeeting (world 1000) farSpec initial)) = [(''m1'', 1001)]"
proof -
  have h: "sp_recurrence aliceSpec \<noteq> Some ''daily''" "sp_recurrence farSpec \<noteq> Some ''daily''"
    by (simp_all add: aliceSpec_def farSpec_def)
  have a: "sp_scheduledTime aliceSpec < now (world 6000)"
    by (simp add: aliceSpec_def world_def)
  have b: "now (world 1000) < sp_scheduledTime aliceSpec" "now (world 1000) < sp_scheduledTime farSpec"
    by (simp_all add: aliceSpec_def farSpec_def world_def)
  have c: "timers initial = []" "uuid (world 1000) = ''m1''" "now (world 1000) = 1000"
    "sp_scheduledTime aliceSpec = 5000" "sp_scheduledTime farSpec = 3000000000"
    by (simp_all add: initial_def world_def aliceSpec_def farSpec_def)
  from scheduleMeeting_one_time [OF h(1), of "world 6000" initial]
    scheduleMeeting_one_time [OF h(1), of "world 1000" initial]
    scheduleMeeting_one_time [OF h(2), of "world 1000" initial] h a b c
  show ?thesis
    by simp
qed

text \<open>
  The claim as stated fails twice. A spec in the past is refused, but only after the
  meeting was put in the registry, where it stays with status scheduled; and a spec
  whose instant equals now, so not strictly in the future, is accepted.
\<close>

theorem past_schedule_registers_meeting:
  "meetings initial = [] \<and>
   fst (scheduleMeeting (world 6000) aliceSpec initial) = Inl (Error ''Failed to schedule meeting'') \<and>
   statusOf (snd (scheduleMeeting (world 6000) aliceSpec initial)) ''m1'' = Some Scheduled \<and>
   map_sum id m_status (fst (scheduleMeeting (world 5000) aliceSpec initial)) = Inr Scheduled"
  by code_simp

subsection \<open>A cancelled one-time meeting\<close>

text \<open>
  Claim C6 fails on the code for one-time meetings. \<open>cancelMeeting\<close> destroys only what
  is in \<open>scheduledJobs\<close>, where the recurring path alone puts a handle; the timeout of a
  one-time meeting stays pending after the cancellation, and when it fires
  \<open>startMeeting\<close> puts the cancelled meeting in progress and opens a session. For a
  daily meeting the job is gone after the cancellation and a firing does nothing.
\<close>

theorem cancelled_one_time_meeting_is_started:
  "statusOf cancelledAlice ''m1'' = Some Cancelled \<and>
   timers cancelledAlice = [(''m1'', 5000)] \<and>
   statusOf (timerFires (world 5000) ''m1'' 5000 cancelledAlice) ''m1'' = Some InProgress \<and>
   map_option s_startTime
     (map_of (activeSessions (timerFires (world 5000) ''m1'' 5000 cancelledAlice)) ''m1'') = Some 5000 \<and>
   scheduledJobs cancelledDaily = [] \<and>
   cronFires (world 5000) ''m1'' cancelledDaily = cancelledDaily"
  by code_simp

subsection \<open>A failing collaborator during finalization\<close>

text \<open>
  Claim C4 fails on the code. When the summary mail throws, \<open>endMeeting\<close> fails with
  `Failed to end meeting': the meeting is already completed, the later steps are skipped
  and the session is not discarded. The alert to the team lead is best effort: when it
  fails, \<open>endMeeting\<close> still succeeds and discards the session.
\<close>

theorem failed_summary_mail_keeps_session:
  "map_of (activeSessions startedAlice) ''m1'' \<noteq> None \<and>
   fst (endMeeting (mailDown 9000) ''m1'' startedAlice) = Inl (Error ''Failed to end meeting'') \<and>
   statusOf (snd (endMeeting (mailDown 9000) ''m1'' startedAlice)) ''m1'' = Some Completed \<and>
   activeSessions (snd (endMeeting (mailDown 9000) ''m1'' startedAlice)) = activeSessions startedAlice \<and>
   UpdateTasksFromMeeting ''m1'' \<notin> set (trace (snd (endMeeting (mailDown 9000) ''m1'' startedAlice))) \<and>
   \<not> isl (fst (endMeeting (alertDown 10000) ''m1'' aliceBlocked)) \<and>
   ConsoleError ''Error alerting team lead:'' ''Failed to send blocker alert''
     \<in> set (trace (snd (endMeeting (alertDown 10000) ''m1'' aliceBlocked))) \<and>
   activeSessions (snd (endMeeting (alertDown 10000) ''m1'' aliceBlocked)) = []"
  by code_simp

subsection \<open>The trace and the sessions under the helpers\<close>

lemma finalizerRuns_emit:
  "finalizerRuns meetingId (emit evs s) =
     finalizerRuns meetingId s + length (filter (\<lambda>ev. ev = SummarizeMeeting meetingId) evs)"
  by (simp add: finalizerRuns_def emit_def)

lemma finalizerRuns_activeSessions [simp]:
  "finalizerRuns meetingId (s \<lparr> activeSessions := a \<rparr>) = finalizerRuns meetingId s"
  by (simp add: finalizerRuns_def)

lemma finalizerRuns_meetings [simp]:
  "finalizerRuns meetingId (s \<lparr> meetings := a \<rparr>) = finalizerRuns meetingId s"
  by (simp add: finalizerRuns_def)

lemma activeSessions_emit [simp]: "activeSessions (emit evs s) = activeSessions s"
  by (simp add: emit_def)

lemma meetings_emit [simp]: "meetings (emit evs s) = meetings s"
  by (simp add: emit_def)

lemma activeSessions_alertTeamLead [simp]:
  "activeSessions (alertTeamLead e meetingId blockerAnalysis s) = activeSessions s"
  by (simp add: alertTeamLead_def split: option.split)



lemma finalizerRuns_alertTeamLead [simp]:
  "finalizerRuns meetingId (alertTeamLead e meetingId' blockerAnalysis s) = finalizerRuns meetingId s"
  by (simp add: alertTeamLead_def finalizerRuns_emit split: option.split)

lemma endMeeting_without_session:
  "map_of (activeSessions s) meetingId = None \<Longrightarrow>
   endMeeting e meetingId s = failEnd ''Meeting or session not found'' s"
  by (simp add: endMeeting_def)

lemma finalizerRuns_failEnd [simp]:
  "finalizerRuns meetingId (snd (failEnd msg s)) = finalizerRuns meetingId s"
  by (simp add: failEnd_def finalizerRuns_emit)

lemma isl_failEnd [simp]: "isl (fst (failEnd msg s))"
  by (simp add: failEnd_def)

subsection \<open>The response table and completed sub-sessions\<close>

lemma js_read_js_set: "js_read (js_set xs i v) j = (if j = i then Some v else js_read xs j)"
  by (auto simp: js_read_def js_set_def nth_append nth_list_update)

lemma js_read_None: "length xs \<le> j \<Longrightarrow> js_read xs j = None"
  by (simp add: js_read_def)

lemma indexOf_Some: "indexOf xs x = Some i \<Longrightarrow> i < length xs \<and> xs ! i = x"
proof (induction xs arbitrary: i)
  case Nil
  then show ?case by simp
next
  case (Cons y ys)
  then show ?case
    by (cases "y = x") (auto simp: nth_Cons')
qed

lemma indexOf_js_get: "indexOf xs x = Some i \<Longrightarrow> js_get xs i = Some x"
  by (simp add: js_get_def indexOf_Some)

lemma set_update_subset: "set (AList.update k v al) \<subseteq> insert (k, v) (set al)"
  by (induction al) auto

lemma set_delete_subset: "set (AList.delete k al) \<subseteq> set al"
  by (auto simp: AList.delete_eq)

lemma map_of_distinct_iff:
  "distinct (map fst al) \<Longrightarrow> (k, v) \<in> set al \<longleftrightarrow> map_of al k = Some v"
  by (auto dest: map_of_SomeD)

lemma completedStored_iff:
  assumes "distinct (map fst (s_activeStandupSessions session))"
  shows "completedStored session \<longleftrightarrow>
     (\<forall>name standupSession i.
        map_of (s_activeStandupSessions session) name = Some standupSession \<longrightarrow>
        ss_isComplete standupSession \<longrightarrow>
        indexOf (s_participants session) name = Some i \<longrightarrow>
        js_read (s_responses session) i = Some (ss_responses standupSession))"
proof -
  have mem: "(k, v) \<in> set (s_activeStandupSessions session) \<longleftrightarrow>
             map_of (s_activeStandupSessions session) k = Some v" for k v
    using assms by (rule map_of_distinct_iff)
  show ?thesis
    unfolding completedStored_def list_all_iff Ball_def
    by (auto simp: mem split: option.splits)
qed

lemma js_read_Some_length: "js_read xs j = Some y \<Longrightarrow> j < length xs"
  by (simp add: js_read_def split: if_splits)

lemma populatedOwned_iff:
  "populatedOwned session \<longleftrightarrow>
     (\<forall>j. js_read (s_responses session) j \<noteq> None \<longrightarrow>
        (\<exists>name. js_get (s_participants session) j = Some name \<and>
                indexOf (s_participants session) name = Some j \<and>
                map_of (s_activeStandupSessions session) name \<noteq> None))"
proof -
  have case_iff: "case_option False P x \<longleftrightarrow> (\<exists>name. x = Some name \<and> P name)"
    for P :: "string \<Rightarrow> bool" and x
    by (cases x) auto
  have bounded: "populatedOwned session \<longleftrightarrow>
     (\<forall>j < length (s_responses session). js_read (s_responses session) j \<noteq> None \<longrightarrow>
        (\<exists>name. js_get (s_participants session) j = Some name \<and>
                indexOf (s_participants session) name = Some j \<and>
                map_of (s_activeStandupSessions session) name \<noteq> None))"
    unfolding populatedOwned_def list_all_iff populated_def case_iff
    by auto
  have "j < length (s_responses session)" if "js_read (s_responses session) j \<noteq> None" for j
    using that by (auto dest: js_read_Some_length)
  then show ?thesis
    unfolding bounded by blast
qed

lemma sessionInv_withStandup:
  assumes "sessionInv session"
    and "ss_isComplete v \<Longrightarrow> indexOf (s_participants session) p = None"
  shows "sessionInv (withStandup p v session)"
proof -
  from assms(1) have d: "distinct (map fst (s_activeStandupSessions session))"
    and c: "completedStored session" and o: "populatedOwned session"
    by (simp_all add: sessionInv_def)
  have d': "distinct (map fst (s_activeStandupSessions (withStandup p v session)))"
    using d by (simp add: withStandup_def distinct_update)
  have c': "completedStored (withStandup p v session)"
    using c assms(2) unfolding completedStored_iff [OF d] completedStored_iff [OF d']
    by (auto simp: withStandup_def update_conv' split: if_splits)
  have o': "populatedOwned (withStandup p v session)"
    unfolding populatedOwned_iff
  proof (intro allI impI)
    fix j
    assume "js_read (s_responses (withStandup p v session)) j \<noteq> None"
    then have "js_read (s_responses session) j \<noteq> None"
      by (simp add: withStandup_def)
    with o obtain name where "js_get (s_participants session) j = Some name"
      and "indexOf (s_participants session) name = Some j"
      and "map_of (s_activeStandupSessions session) name \<noteq> None"
      unfolding populatedOwned_iff by blast
    then have "js_get (s_participants (withStandup p v session)) j = Some name \<and>
               indexOf (s_participants (withStandup p v session)) name = Some j \<and>
               map_of (s_activeStandupSessions (withStandup p v session)) name \<noteq> None"
      by (simp add: withStandup_def update_conv')
    then show "\<exists>name. js_get (s_participants (withStandup p v session)) j = Some name \<and>
                 indexOf (s_participants (withStandup p v session)) name = Some j \<and>
                 map_of (s_activeStandupSessions (withStandup p v session)) name \<noteq> None"
      by blast
  qed
  from d' c' o' show ?thesis
    by (simp add: sessionInv_def)
qed

lemma sessionInv_storeResponses:
  assumes "sessionInv session"
  shows "sessionInv (storeResponses p v (withStandup p v session))"
proof (cases "indexOf (s_participants session) p")
  case None
  then have "storeResponses p v (withStandup p v session) = withStandup p v session"
    by (simp add: storeResponses_def withStandup_def)
  with assms None show ?thesis
    by (simp add: sessionInv_withStandup)
next
  case (Some i)
  from assms have d: "distinct (map fst (s_activeStandupSessions session))"
    and c: "completedStored session" and o: "populatedOwned session"
    by (simp_all add: sessionInv_def)
  let ?session' = "storeResponses p v (withStandup p v session)"
  have eq: "?session' = session
              \<lparr> s_activeStandupSessions := AList.update p v (s_activeStandupSessions session),
                s_responses := js_set (s_responses session) i (ss_responses v) \<rparr>"
    using Some by (simp add: storeResponses_def withStandup_def)
  have d': "distinct (map fst (s_activeStandupSessions ?session'))"
    using d by (simp add: eq distinct_update)
  have other: "j \<noteq> i" if "indexOf (s_participants session) name = Some j" and "name \<noteq> p" for name j
    using that Some indexOf_Some [of "s_participants session" name j]
      indexOf_Some [of "s_participants session" p i] by auto
  have c': "completedStored ?session'"
    unfolding completedStored_iff [OF d']
  proof (intro allI impI)
    fix name standupSession j
    assume m: "map_of (s_activeStandupSessions ?session') name = Some standupSession"
      and complete: "ss_isComplete standupSession"
      and ix: "indexOf (s_participants ?session') name = Some j"
    show "js_read (s_responses ?session') j = Some (ss_responses standupSession)"
    proof -
      from m have m': "((map_of (s_activeStandupSessions session))(p \<mapsto> v)) name = Some standupSession"
        by (simp add: eq update_conv')
      from ix have ix': "indexOf (s_participants session) name = Some j"
        by (simp add: eq)
      have "js_read (js_set (s_responses session) i (ss_responses v)) j =
            Some (ss_responses standupSession)"
      proof (cases "name = p")
        case True
        with m' ix' Some show ?thesis
          by (simp add: js_read_js_set)
      next
        case False
        with m' have "map_of (s_activeStandupSessions session) name = Some standupSession"
          by simp
        then have "js_read (s_responses session) j = Some (ss_responses standupSession)"
          using c complete ix' unfolding completedStored_iff [OF d] by blast
        with other [OF ix' False] show ?thesis
          by (simp add: js_read_js_set)
      qed
      then show ?thesis
        by (simp add: eq)
    qed
  qed
  have o': "populatedOwned ?session'"
    unfolding populatedOwned_iff
  proof (intro allI impI)
    fix j
    assume pop: "js_read (s_responses ?session') j \<noteq> None"
    show "\<exists>name. js_get (s_participants ?session') j = Some name \<and>
                 indexOf (s_participants ?session') name = Some j \<and>
                 map_of (s_activeStandupSessions ?session') name \<noteq> None"
    proof (cases "j = i")
      case True
      with Some show ?thesis
        by (simp add: eq update_conv' indexOf_js_get)
    next
      case False
      with pop have "js_read (s_responses session) j \<noteq> None"
        by (simp add: eq js_read_js_set)
      with o obtain name where "js_get (s_participants session) j = Some name"
        and "indexOf (s_participants session) name = Some j"
        and "map_of (s_activeStandupSessions session) name \<noteq> None"
        unfolding populatedOwned_iff by blast
      then show ?thesis
        by (auto simp: eq update_conv')
    qed
  qed
  from d' c' o' show ?thesis
    by (simp add: sessionInv_def)
qed

lemma sessionInv_fresh:
  "sessionInv \<lparr> s_meetingId = meetingId, s_participants = ps, s_responses = [],
                 s_currentParticipantIndex = 0, s_activeStandupSessions = [],
                 s_startTime = t, s_isVirtualScrumMaster = b \<rparr>"
  by (simp add: sessionInv_def completedStored_def populatedOwned_def)

lemma serviceInv_iff:
  "serviceInv s \<longleftrightarrow> (\<forall>(meetingId, session) \<in> set (activeSessions s). sessionInv session)"
  by (simp add: serviceInv_def list_all_iff)

lemma serviceInv_subset:
  "serviceInv s \<Longrightarrow> set (activeSessions s') \<subseteq> set (activeSessions s) \<Longrightarrow> serviceInv s'"
  unfolding serviceInv_iff by blast

lemma serviceInv_update:
  assumes "serviceInv s" and "sessionInv session"
    and "set (activeSessions s') \<subseteq> set (AList.update meetingId session (activeSessions s))"
  shows "serviceInv s'"
  using assms set_update_subset [of meetingId session "activeSessions s"]
  unfolding serviceInv_iff by blast

lemma serviceInv_lookup:
  "serviceInv s \<Longrightarrow> map_of (activeSessions s) meetingId = Some session \<Longrightarrow> sessionInv session"
  unfolding serviceInv_iff by (auto dest: map_of_SomeD)

lemma activeSessions_notifyParticipants [simp]:
  "activeSessions (notifyParticipants e meeting subject message s) = activeSessions s"
  by (simp add: notifyParticipants_def)

lemma activeSessions_failEnd [simp]: "activeSessions (snd (failEnd msg s)) = activeSessions s"
  by (simp add: failEnd_def)

lemma activeSessions_failSubmit [simp]: "activeSessions (snd (failSubmit msg s)) = activeSessions s"
  by (simp add: failSubmit_def)

lemma activeSessions_failJoin [simp]: "activeSessions (snd (failJoin msg s)) = activeSessions s"
  by (simp add: failJoin_def)

lemma endMeeting_sessions:
  "set (activeSessions (snd (endMeeting e meetingId s))) \<subseteq> set (activeSessions s)"
  using set_delete_subset [of meetingId "activeSessions s"]
  by (auto simp: endMeeting_def Let_def split: option.splits)

lemma checkMeetingCompletion_sessions:
  "set (activeSessions (snd (checkMeetingCompletion e meetingId s))) \<subseteq> set (activeSessions s)"
  using endMeeting_sessions [of e meetingId s]
  by (auto simp: checkMeetingCompletion_def Let_def split: option.splits prod.splits sum.splits)

lemma serviceInv_startMeeting: "serviceInv s \<Longrightarrow> serviceInv (snd (startMeeting e meetingId s))"
  by (auto simp: startMeeting_def Let_def split: option.splits
      intro: serviceInv_subset serviceInv_update [OF _ sessionInv_fresh])

lemma serviceInv_scheduleMeeting:
  "serviceInv s \<Longrightarrow> serviceInv (snd (scheduleMeeting e meetingData s))"
  by (erule serviceInv_subset)
    (auto simp: scheduleMeeting_def scheduleRecurringMeeting_def scheduleOneTimeMeeting_def Let_def
      split: prod.splits sum.splits error.splits if_splits)

lemma serviceInv_cancelMeeting: "serviceInv s \<Longrightarrow> serviceInv (snd (cancelMeeting e meetingId s))"
  by (erule serviceInv_subset) (auto simp: cancelMeeting_def Let_def split: option.splits)

lemma serviceInv_endMeeting: "serviceInv s \<Longrightarrow> serviceInv (snd (endMeeting e meetingId s))"
  by (erule serviceInv_subset) (rule endMeeting_sessions)

lemma serviceInv_joinMeeting:
  assumes "serviceInv s"
  shows "serviceInv (snd (joinMeeting e meetingId p s))"
proof (cases "map_of (activeSessions s) meetingId")
  case None
  with assms show ?thesis
    by (auto simp: joinMeeting_def intro: serviceInv_subset)
next
  case (Some session)
  have fresh: "sessionInv (withStandup p (conductStandupSession e p) session)"
    using serviceInv_lookup [OF assms Some]
    by (rule sessionInv_withStandup) (simp add: conductStandupSession_def)
  show ?thesis
  proof (cases "map_of (meetings s) meetingId")
    case None
    with Some assms show ?thesis
      by (auto simp: joinMeeting_def intro: serviceInv_subset)
  next
    case (Some meeting)
    with \<open>map_of (activeSessions s) meetingId = Some session\<close> assms fresh show ?thesis
      by (auto simp: joinMeeting_def Let_def withStandup_def
          intro: serviceInv_subset serviceInv_update)
  qed
qed

lemma serviceInv_submitStandupResponse:
  assumes "serviceInv s"
  shows "serviceInv (snd (submitStandupResponse e meetingId p response s))"
proof (cases "map_of (activeSessions s) meetingId")
  case None
  with assms show ?thesis
    by (auto simp: submitStandupResponse_def intro: serviceInv_subset)
next
  case (Some session)
  note session = this
  show ?thesis
  proof (cases "map_of (s_activeStandupSessions session) p")
    case None
    with session assms show ?thesis
      by (auto simp: submitStandupResponse_def intro: serviceInv_subset)
  next
    case (Some standupSession)
    let ?processed = "processStandupResponse e standupSession response
                        (ss_currentQuestionIndex standupSession)"
    let ?updated = "fst ?processed"
    let ?session1 = "withStandup p ?updated session"
    let ?s1 = "emit (snd ?processed)
                 (s \<lparr> activeSessions := AList.update meetingId ?session1 (activeSessions s) \<rparr>)"
    let ?session2 = "storeResponses p ?updated ?session1"
    let ?s2 = "?s1 \<lparr> activeSessions := AList.update meetingId ?session2 (activeSessions ?s1) \<rparr>"
    have inv: "sessionInv session"
      by (rule serviceInv_lookup [OF assms session])
    show ?thesis
    proof (cases "ss_isComplete ?updated")
      case False
      have inv1: "sessionInv ?session1"
        by (rule sessionInv_withStandup [OF inv]) (simp add: False)
      have "serviceInv ?s1"
        by (rule serviceInv_update [OF assms inv1, where meetingId = meetingId]) simp
      moreover have "snd (submitStandupResponse e meetingId p response s) = ?s1"
        using session Some False by (simp add: submitStandupResponse_def Let_def)
      ultimately show ?thesis
        by simp
    next
      case True
      have inv2: "sessionInv ?session2"
        using inv by (rule sessionInv_storeResponses)
      have "serviceInv ?s2"
        by (rule serviceInv_update [OF assms inv2, where meetingId = meetingId])
          (simp add: update_last)
      then have "serviceInv (snd (checkMeetingCompletion e meetingId ?s2))"
        by (rule serviceInv_subset) (rule checkMeetingCompletion_sessions)
      moreover have "activeSessions (snd (submitStandupResponse e meetingId p response s)) =
                     activeSessions (snd (checkMeetingCompletion e meetingId ?s2))"
        using session Some True
        by (simp add: submitStandupResponse_def Let_def split: prod.split sum.split error.split)
      ultimately show ?thesis
        by (simp add: serviceInv_def)
    qed
  qed
qed

lemma serviceInv_exec: "serviceInv s \<Longrightarrow> serviceInv (exec x s)"
proof (cases x)
  case (Pair e operation)
  assume inv: "serviceInv s"
  have timer: "serviceInv (s \<lparr> timers := ts \<rparr>)" for ts
    using inv by (simp add: serviceInv_def)
  show ?thesis
    using inv timer Pair
    by (cases operation)
      (auto simp: timerFires_def cronFires_def split: option.splits
        intro: serviceInv_scheduleMeeting serviceInv_startMeeting serviceInv_joinMeeting
          serviceInv_submitStandupResponse serviceInv_endMeeting serviceInv_cancelMeeting)
qed

lemma serviceInv_run: "serviceInv s \<Longrightarrow> serviceInv (run ops s)"
  unfolding run_def by (induction ops arbitrary: s) (simp_all add: serviceInv_exec)

lemma serviceInv_initial: "serviceInv initial"
  by (simp add: serviceInv_def initial_def)

text \<open>
  Claim C3, as the code has it. In every state that a run of the service reaches from
  the empty service, for every live session: a participant whose sub-session has
  \<open>isComplete\<close> true has exactly that sub-session's answers in the response slot at the
  first position of the participant's name; and a populated slot is the first position
  of its participant, who has a sub-session.
\<close>

theorem response_table_sound: "tableSound (run ops initial)"
proof -
  have "serviceInv (run ops initial)"
    by (rule serviceInv_run) (rule serviceInv_initial)
  then show ?thesis
    by (auto simp: serviceInv_def tableSound_def sessionInv_def list_all_iff)
qed

theorem response_table_sound_witness:
  "tableSound (run aliceDoneOps initial) \<and>
   map_of (activeSessions (run aliceDoneOps initial)) ''m1'' = Some aliceDoneSession \<and>
   map_of (s_activeStandupSessions aliceDoneSession) ''alice'' = Some aliceDoneStandup \<and>
   ss_isComplete aliceDoneStandup \<and>
   indexOf (s_participants aliceDoneSession) ''alice'' = Some 0 \<and>
   js_read (s_responses aliceDoneSession) 0 = Some (ss_responses aliceDoneStandup) \<and>
   length (ss_responses aliceDoneStandup) = 3"
proof -
  have h1: "map_of (activeSessions (run aliceDoneOps initial)) ''m1'' = Some aliceDoneSession"
    by code_simp
  have h2: "map_of (s_activeStandupSessions aliceDoneSession) ''alice'' = Some aliceDoneStandup"
    by code_simp
  have h3: "ss_isComplete aliceDoneStandup"
    by code_simp
  have h4: "indexOf (s_participants aliceDoneSession) ''alice'' = Some 0"
    by code_simp
  have h5: "length (ss_responses aliceDoneStandup) = 3"
    by code_simp
  note sound = response_table_sound [of aliceDoneOps]
  from sound h1 have "completedStored aliceDoneSession"
    by (auto simp: tableSound_def list_all_iff dest: map_of_SomeD)
  with h2 h3 h4 have "js_read (s_responses aliceDoneSession) 0 = Some (ss_responses aliceDoneStandup)"
    by (auto simp: completedStored_def list_all_iff dest!: map_of_SomeD)
  with sound h1 h2 h3 h4 h5 show ?thesis
    by simp
qed

text \<open>
  The claim as stated fails in both directions. When alice is listed twice and has
  completed, the slot of her second position is empty; and when alice joins again
  after completing, her slot is populated while her new sub-session is not complete.
\<close>

theorem response_table_mismatch:
  "\<not> responsesMatchCompletion aliceTwice \<and> \<not> responsesMatchCompletion aliceRejoined"
  by code_simp

subsection \<open>How often the finalizer runs\<close>


lemma finalizerRuns_timers [simp]:
  "finalizerRuns meetingId (s \<lparr> timers := a \<rparr>) = finalizerRuns meetingId s"
  by (simp add: finalizerRuns_def)

lemma finalizerRuns_scheduledJobs [simp]:
  "finalizerRuns meetingId (s \<lparr> scheduledJobs := a \<rparr>) = finalizerRuns meetingId s"
  by (simp add: finalizerRuns_def)

lemma finalizerRuns_notifyParticipants [simp]:
  "finalizerRuns meetingId (notifyParticipants e meeting subject message s) = finalizerRuns meetingId s"
  by (simp add: notifyParticipants_def finalizerRuns_emit)

lemma finalizerRuns_failSubmit [simp]:
  "finalizerRuns meetingId (snd (failSubmit msg s)) = finalizerRuns meetingId s"
  by (simp add: failSubmit_def finalizerRuns_emit)

lemma finalizerRuns_failJoin [simp]:
  "finalizerRuns meetingId (snd (failJoin msg s)) = finalizerRuns meetingId s"
  by (simp add: failJoin_def finalizerRuns_emit)























end
